theory Spec2Isabelle
  imports Complex_Main
begin

section \<open>The steerable approximate-query engine of \<^verbatim>\<open>src/main.py\<close>\<close>

text \<open>
  The engine keeps one process-wide \<^verbatim>\<open>QueryState\<close>, pulls pages of at most
  \<^verbatim>\<open>CHUNK_SIZE\<close> rows from a SODA endpoint and derives a running estimate.
  The embedding below follows \<^verbatim>\<open>main.py\<close> function by function.

  \<^item> A Python float is a \<open>number\<close>: a finite real, one of the two infinities, or NaN.
    An operation whose exact result leaves the range of a double gives an infinity or
    raises \<^verbatim>\<open>OverflowError\<close>, as the operation does in Python. Rounding of results that
    stay in range is not modelled: they are kept exact. Negative zero is not modelled.
  \<^item> Python ints are \<^typ>\<open>int\<close>.
  \<^item> The global \<^verbatim>\<open>query_state\<close> is passed in and returned explicitly.
  \<^item> Every \<^verbatim>\<open>raise\<close> is a value of \<open>py_exception\<close>; every \<^verbatim>\<open>except\<close>
    clause is a branch that tests which exception arrived.
  \<^item> The network is a function from the request parameters to what
    \<^verbatim>\<open>requests.get(...)\<close>, \<^verbatim>\<open>raise_for_status()\<close> and \<^verbatim>\<open>.json()\<close> deliver together;
    each operation also returns the list of requests it issued.
  \<^item> The endpoints are modelled up to the dictionary they return; what FastAPI does
    with it, and the \<^verbatim>\<open>print\<close> calls, are not modelled.
\<close>

subsection \<open>Python floats\<close>

datatype number = Finite real | PosInf | NegInf | NaN

datatype py_exception =
  KeyError | ValueError | TypeError | OverflowError | ZeroDivisionError | RequestException

text \<open>An exact result of this magnitude or more rounds to an infinity: the midpoint
  between the largest double and \<open>2 ^ 1024\<close>.\<close>

definition FLOAT_LIMIT :: real where
  "FLOAT_LIMIT = 2 ^ 1024 - 2 ^ 970"

text \<open>The double for an exact result: itself when in range, an infinity otherwise.\<close>

definition to_float :: "real \<Rightarrow> number" where
  "to_float x =
     (if FLOAT_LIMIT \<le> x then PosInf
      else if x \<le> - FLOAT_LIMIT then NegInf
      else Finite x)"

text \<open>\<^verbatim>\<open>a + b\<close> and \<^verbatim>\<open>a - b\<close> on floats: an overflow gives an infinity, never an
  exception.\<close>

fun fadd :: "number \<Rightarrow> number \<Rightarrow> number" where
  "fadd (Finite x) (Finite y) = to_float (x + y)"
| "fadd NaN b = NaN"
| "fadd a NaN = NaN"
| "fadd PosInf NegInf = NaN"
| "fadd NegInf PosInf = NaN"
| "fadd PosInf b = PosInf"
| "fadd a PosInf = PosInf"
| "fadd NegInf b = NegInf"
| "fadd a NegInf = NegInf"

fun fsub :: "number \<Rightarrow> number \<Rightarrow> number" where
  "fsub (Finite x) (Finite y) = to_float (x - y)"
| "fsub NaN b = NaN"
| "fsub a NaN = NaN"
| "fsub PosInf PosInf = NaN"
| "fsub NegInf NegInf = NaN"
| "fsub PosInf b = PosInf"
| "fsub a PosInf = NegInf"
| "fsub NegInf b = NegInf"
| "fsub a NegInf = PosInf"

text \<open>\<^verbatim>\<open>a < b\<close> on floats: every comparison with NaN is false.\<close>

fun fless :: "number \<Rightarrow> number \<Rightarrow> bool" where
  "fless (Finite x) (Finite y) = (x < y)"
| "fless NaN b = False"
| "fless a NaN = False"
| "fless PosInf b = False"
| "fless a NegInf = False"
| "fless a PosInf = True"
| "fless NegInf b = True"


text \<open>\<^verbatim>\<open>a * b\<close> and \<^verbatim>\<open>a / b\<close> where an operand is a numpy double: overflow and division
  by zero give an infinity or NaN with a warning, never an exception.\<close>

fun fmul :: "number \<Rightarrow> number \<Rightarrow> number" where
  "fmul (Finite x) (Finite y) = to_float (x * y)"
| "fmul NaN b = NaN"
| "fmul a NaN = NaN"
| "fmul (Finite x) PosInf = (if x = 0 then NaN else if 0 < x then PosInf else NegInf)"
| "fmul (Finite x) NegInf = (if x = 0 then NaN else if 0 < x then NegInf else PosInf)"
| "fmul PosInf (Finite y) = (if y = 0 then NaN else if 0 < y then PosInf else NegInf)"
| "fmul NegInf (Finite y) = (if y = 0 then NaN else if 0 < y then NegInf else PosInf)"
| "fmul PosInf PosInf = PosInf"
| "fmul PosInf NegInf = NegInf"
| "fmul NegInf PosInf = NegInf"
| "fmul NegInf NegInf = PosInf"

fun fdiv :: "number \<Rightarrow> number \<Rightarrow> number" where
  "fdiv (Finite x) (Finite y) =
     (if y = 0 then (if x = 0 then NaN else if 0 < x then PosInf else NegInf)
      else to_float (x / y))"
| "fdiv NaN b = NaN"
| "fdiv a NaN = NaN"
| "fdiv (Finite x) PosInf = Finite 0"
| "fdiv (Finite x) NegInf = Finite 0"
| "fdiv PosInf (Finite y) = (if 0 \<le> y then PosInf else NegInf)"
| "fdiv NegInf (Finite y) = (if 0 \<le> y then NegInf else PosInf)"
| "fdiv PosInf b = NaN"
| "fdiv NegInf b = NaN"

text \<open>The conversion of a Python int to a float, as \<^verbatim>\<open>float(n)\<close> and as the right operand
  of \<^verbatim>\<open>x / n\<close> do it.\<close>

definition int_to_float :: "int \<Rightarrow> py_exception + number" where
  "int_to_float n =
     (if FLOAT_LIMIT \<le> \<bar>real_of_int n\<bar> then Inl OverflowError
      else Inr (Finite (real_of_int n)))"

text \<open>\<^verbatim>\<open>x / n\<close> for a Python float \<open>x\<close> and a Python int \<open>n\<close>: the int is converted first,
  then a zero divisor is refused; for any other divisor the quotient is that of the two
  doubles.\<close>

definition float_div_int :: "number \<Rightarrow> int \<Rightarrow> py_exception + number" where
  "float_div_int x n =
     (case int_to_float n of
        Inl e \<Rightarrow> Inl e
      | Inr d \<Rightarrow> if n = 0 then Inl ZeroDivisionError else Inr (fdiv x d))"

text \<open>\<^verbatim>\<open>x ** 2\<close> for a Python float: a finite square out of range raises.\<close>

fun float_pow2 :: "number \<Rightarrow> py_exception + number" where
  "float_pow2 (Finite x) =
     (if FLOAT_LIMIT \<le> x ^ 2 then Inl OverflowError else Inr (Finite (x ^ 2)))"
| "float_pow2 PosInf = Inr PosInf"
| "float_pow2 NegInf = Inr PosInf"
| "float_pow2 NaN = Inr NaN"

text \<open>\<^verbatim>\<open>np.sqrt\<close> of a float, and of a Python int. numpy turns an int into a 64-bit
  integer, signed or unsigned, and has no square root for an int that fits neither.\<close>

fun np_sqrt :: "number \<Rightarrow> number" where
  "np_sqrt (Finite x) = (if x < 0 then NaN else Finite (sqrt x))"
| "np_sqrt PosInf = PosInf"
| "np_sqrt NegInf = NaN"
| "np_sqrt NaN = NaN"

definition np_sqrt_int :: "int \<Rightarrow> py_exception + number" where
  "np_sqrt_int n =
     (if - (2 ^ 63) \<le> n \<and> n < 2 ^ 64 then Inr (np_sqrt (Finite (real_of_int n)))
      else Inl TypeError)"

subsection \<open>Constants and the session record\<close>

definition CHUNK_SIZE :: int where
  "CHUNK_SIZE = 10000"

record QueryState =
  current_offset :: int
  running_sum :: number
  running_count :: int
  running_sum_sq :: number
  is_done :: bool
  column_to_query :: "string option"
  aggregate_function :: "string option"

text \<open>\<^verbatim>\<open>QueryState.__init__\<close>: the state of a fresh session.\<close>

definition init :: QueryState where
  "init = \<lparr>current_offset = 0, running_sum = Finite 0, running_count = 0,
           running_sum_sq = Finite 0, is_done = False, column_to_query = None,
           aggregate_function = None\<rparr>"

text \<open>\<^verbatim>\<open>QueryState.reset\<close> assigns every field of the existing object.\<close>

definition reset :: "QueryState \<Rightarrow> QueryState" where
  "reset qs = qs\<lparr>current_offset := 0, running_sum := Finite 0, running_count := 0,
                 running_sum_sq := Finite 0, is_done := False, column_to_query := None,
                 aggregate_function := None\<rparr>"

text \<open>
  \<^verbatim>\<open>StartQueryRequest\<close> and \<^verbatim>\<open>QueryResult\<close>. Two fields are prefixed because a
  record field name can be declared once only: \<open>request_aggregate_function\<close> is
  \<^verbatim>\<open>StartQueryRequest.aggregate_function\<close> and \<open>result_is_done\<close> is
  \<^verbatim>\<open>QueryResult.is_done\<close>.
\<close>

record StartQueryRequest =
  column_name :: string
  request_aggregate_function :: string

record QueryResult =
  average :: number
  confidence_interval :: number
  percent_complete :: number
  result_is_done :: bool

subsection \<open>\<^verbatim>\<open>calculate_statistics\<close>\<close>

text \<open>
  The function returns the tuple \<^verbatim>\<open>(avg, ci, count, done)\<close> or raises. A component that
  is a Python int (the count) is given by its value, \<open>Finite\<close> of the integer.
\<close>

definition calculate_statistics ::
  "QueryState \<Rightarrow> py_exception + (number \<times> number \<times> number \<times> bool)" where
  "calculate_statistics qs =
    (if running_count qs = 0 then Inr (Finite 0, Finite 0, Finite 0, False)
     else
       let done = is_done qs;
           records_processed = Finite (real_of_int (running_count qs));
           agg_func = aggregate_function qs
       in
         if agg_func = Some ''AVG'' then
           (case float_div_int (running_sum qs) (running_count qs) of
              Inl e \<Rightarrow> Inl e
            | Inr avg \<Rightarrow>
               (case float_div_int (running_sum_sq qs) (running_count qs) of
                  Inl e \<Rightarrow> Inl e
                | Inr mean_sq \<Rightarrow>
                   (case float_pow2 avg of
                      Inl e \<Rightarrow> Inl e
                    | Inr avg_sq \<Rightarrow>
                       let variance = fsub mean_sq avg_sq;
                           variance = (if fless variance (Finite 0) then Finite 0 else variance);
                           std_dev = np_sqrt variance
                       in (case np_sqrt_int (running_count qs) of
                             Inl e \<Rightarrow> Inl e
                           | Inr root_count \<Rightarrow>
                               let std_error = fdiv std_dev root_count;
                                   ci = fmul (Finite 1.96) std_error
                               in Inr (avg, ci, records_processed, done)))))
         else if agg_func = Some ''SUM'' then
           Inr (running_sum qs, Finite 0, records_processed, done)
         else if agg_func = Some ''COUNT'' then
           Inr (Finite (real_of_int (running_count qs)), Finite 0, records_processed, done)
         else Inr (Finite 0, Finite 0, Finite 0, done))"

subsection \<open>JSON rows and the two Python operations applied to them\<close>

text \<open>A decoded JSON value. A number without fraction or exponent is a Python int of any
  size; any other number is a float, which is infinite when the literal is out of range.\<close>

datatype json =
    JNull
  | JBool bool
  | JInt int
  | JFloat number
  | JString string
  | JArray "json list"
  | JObject "(string \<times> json) list"

text \<open>
  \<^verbatim>\<open>record[col]\<close> with a string key. A JSON object is a \<^verbatim>\<open>dict\<close>, in which the last
  binding of a repeated key wins; every other JSON value refuses a string subscript.
\<close>

fun py_getitem :: "json \<Rightarrow> string \<Rightarrow> py_exception + json" where
  "py_getitem (JObject kvs) col =
     (case map_of (rev kvs) col of None \<Rightarrow> Inl KeyError | Some v \<Rightarrow> Inr v)"
| "py_getitem JNull col = Inl TypeError"
| "py_getitem (JBool b) col = Inl TypeError"
| "py_getitem (JInt n) col = Inl TypeError"
| "py_getitem (JFloat x) col = Inl TypeError"
| "py_getitem (JString s) col = Inl TypeError"
| "py_getitem (JArray xs) col = Inl TypeError"

text \<open>
  \<^verbatim>\<open>float(v)\<close>. The builtin's string grammar is not part of the repository; it is the
  parameter \<open>str_to_float\<close>, whose \<open>None\<close> is the builtin's \<^verbatim>\<open>ValueError\<close> and whose
  values include the infinities and NaN that \<^verbatim>\<open>float('inf')\<close>, \<^verbatim>\<open>float('1e400')\<close> and
  \<^verbatim>\<open>float('nan')\<close> return.
\<close>

fun py_float :: "(string \<Rightarrow> number option) \<Rightarrow> json \<Rightarrow> py_exception + number" where
  "py_float str_to_float (JInt n) = int_to_float n"
| "py_float str_to_float (JFloat x) = Inr x"
| "py_float str_to_float (JBool b) = Inr (if b then Finite 1 else Finite 0)"
| "py_float str_to_float (JString s) =
     (case str_to_float s of None \<Rightarrow> Inl ValueError | Some x \<Rightarrow> Inr x)"
| "py_float str_to_float JNull = Inl TypeError"
| "py_float str_to_float (JArray xs) = Inl TypeError"
| "py_float str_to_float (JObject kvs) = Inl TypeError"

text \<open>The expression \<^verbatim>\<open>float(record[col])\<close>.\<close>

definition record_value ::
  "(string \<Rightarrow> number option) \<Rightarrow> json \<Rightarrow> string \<Rightarrow> py_exception + number" where
  "record_value str_to_float record col =
     (case py_getitem record col of
        Inl e \<Rightarrow> Inl e
      | Inr v \<Rightarrow> py_float str_to_float v)"

subsection \<open>The request and the data source\<close>

text \<open>
  The query string \<^verbatim>\<open>?$select={col}&$where={col} > 0&$limit={CHUNK_SIZE}&$offset={...}\<close>
  is kept as its four parameters.
\<close>

record soda_query =
  q_select :: string
  q_where_positive :: string
  q_limit :: int
  q_offset :: int

text \<open>
  What the three calls \<^verbatim>\<open>requests.get\<close>, \<^verbatim>\<open>raise_for_status\<close> and \<^verbatim>\<open>json\<close> yield for a
  request: an exception, or the decoded JSON array of rows. The endpoint answers a
  successful request with an array; a row may be any JSON value.
\<close>

type_synonym source = "soda_query \<Rightarrow> py_exception + json list"

definition build_query :: "string \<Rightarrow> int \<Rightarrow> soda_query" where
  "build_query col offset =
     \<lparr>q_select = col, q_where_positive = col, q_limit = CHUNK_SIZE, q_offset = offset\<rparr>"

text \<open>The outcome of an operation: what it returned or raised, the session it left
  behind, and the requests it sent.\<close>

record 'a outcome =
  returned :: "py_exception + 'a"
  state_after :: QueryState
  requests_sent :: "soda_query list"

subsection \<open>\<^verbatim>\<open>fetch_next_chunk\<close>\<close>

text \<open>\<^verbatim>\<open>not query_state.column_to_query\<close>: \<^verbatim>\<open>None\<close> and the empty string are falsy.\<close>

definition py_not :: "string option \<Rightarrow> bool" where
  "py_not c = (case c of None \<Rightarrow> True | Some s \<Rightarrow> s = [])"

text \<open>
  The body of the inner \<^verbatim>\<open>try\<close>, for one row: the exception it raises, if any, and the
  session as mutated up to there. The sum is updated before the square is taken.
\<close>

definition add_record ::
  "(string \<Rightarrow> number option) \<Rightarrow> string \<Rightarrow> json \<Rightarrow> QueryState
     \<Rightarrow> py_exception option \<times> QueryState" where
  "add_record str_to_float col record qs =
     (case record_value str_to_float record col of
        Inl e \<Rightarrow> (Some e, qs)
      | Inr v \<Rightarrow>
          let qs1 = qs\<lparr>running_sum := fadd (running_sum qs) v\<rparr>
          in if aggregate_function qs1 = Some ''AVG''
             then (case float_pow2 v of
                     Inl e \<Rightarrow> (Some e, qs1)
                   | Inr v_sq \<Rightarrow>
                       (None, qs1\<lparr>running_sum_sq := fadd (running_sum_sq qs1) v_sq\<rparr>))
             else (None, qs1))"

text \<open>
  The \<^verbatim>\<open>for record in data\<close> loop. \<^verbatim>\<open>except (KeyError, ValueError, TypeError)\<close> goes on
  with the next row; any other exception leaves the loop.
\<close>

fun sum_records ::
  "(string \<Rightarrow> number option) \<Rightarrow> string \<Rightarrow> json list \<Rightarrow> QueryState
     \<Rightarrow> py_exception option \<times> QueryState" where
  "sum_records str_to_float col [] qs = (None, qs)"
| "sum_records str_to_float col (record # data) qs =
     (case add_record str_to_float col record qs of
        (None, qs') \<Rightarrow> sum_records str_to_float col data qs'
      | (Some e, qs') \<Rightarrow>
          if e = KeyError \<or> e = ValueError \<or> e = TypeError
          then sum_records str_to_float col data qs'
          else (Some e, qs'))"

text \<open>The outer \<^verbatim>\<open>except requests.exceptions.RequestException\<close> clause.\<close>

definition on_exception ::
  "py_exception \<Rightarrow> QueryState \<Rightarrow> soda_query list \<Rightarrow> bool outcome" where
  "on_exception e qs sent =
     (if e = RequestException
      then \<lparr>returned = Inr False, state_after = qs\<lparr>is_done := True\<rparr>, requests_sent = sent\<rparr>
      else \<lparr>returned = Inl e, state_after = qs, requests_sent = sent\<rparr>)"

definition fetch_next_chunk ::
  "(string \<Rightarrow> number option) \<Rightarrow> source \<Rightarrow> QueryState \<Rightarrow> bool outcome" where
  "fetch_next_chunk str_to_float src qs =
     (if is_done qs \<or> py_not (column_to_query qs)
      then \<lparr>returned = Inr False, state_after = qs, requests_sent = []\<rparr>
      else
        let col = the (column_to_query qs);
            soda = build_query col (current_offset qs)
        in case src soda of
             Inl e \<Rightarrow> on_exception e qs [soda]
           | Inr data \<Rightarrow>
               if data = []
               then \<lparr>returned = Inr False, state_after = qs\<lparr>is_done := True\<rparr>,
                     requests_sent = [soda]\<rparr>
               else
                 let qs1 = qs\<lparr>running_count := running_count qs + int (length data)\<rparr>;
                     looped =
                       (if aggregate_function qs1 = Some ''SUM''
                           \<or> aggregate_function qs1 = Some ''AVG''
                        then sum_records str_to_float col data qs1
                        else (None, qs1))
                 in (case looped of
                       (Some e, qs2) \<Rightarrow> on_exception e qs2 [soda]
                     | (None, qs2) \<Rightarrow>
                         \<lparr>returned = Inr True,
                          state_after = qs2\<lparr>current_offset := current_offset qs2 + CHUNK_SIZE\<rparr>,
                          requests_sent = [soda]\<rparr>))"

subsection \<open>The two endpoints\<close>

text \<open>The response dictionary built from the tuple of \<^verbatim>\<open>calculate_statistics\<close>.\<close>

fun pack_result :: "number \<times> number \<times> number \<times> bool \<Rightarrow> QueryResult" where
  "pack_result (avg, ci, count, done) =
     \<lparr>average = avg, confidence_interval = ci, percent_complete = count,
      result_is_done = done\<rparr>"

text \<open>The two lines after the fetch, the same in both endpoints: derive the statistics
  of the session and return them as the response, or raise what deriving raises.\<close>

definition derive_result :: "QueryState \<Rightarrow> py_exception + QueryResult" where
  "derive_result qs =
     (case calculate_statistics qs of
        Inl e \<Rightarrow> Inl e
      | Inr stats \<Rightarrow> Inr (pack_result stats))"

text \<open>An exception that escaped the fetch escapes the endpoint before anything is
  derived.\<close>

definition respond :: "bool outcome \<Rightarrow> QueryResult outcome" where
  "respond fetched =
     (case returned fetched of
        Inl e \<Rightarrow>
          \<lparr>returned = Inl e, state_after = state_after fetched,
           requests_sent = requests_sent fetched\<rparr>
      | Inr b \<Rightarrow>
          \<lparr>returned = derive_result (state_after fetched),
           state_after = state_after fetched,
           requests_sent = requests_sent fetched\<rparr>)"

definition start_query ::
  "(string \<Rightarrow> number option) \<Rightarrow> source \<Rightarrow> StartQueryRequest \<Rightarrow> QueryState
     \<Rightarrow> QueryResult outcome" where
  "start_query str_to_float src request qs =
     (let qs1 = reset qs;
          qs2 = qs1\<lparr>column_to_query := Some (column_name request)\<rparr>;
          qs3 = qs2\<lparr>aggregate_function := Some (request_aggregate_function request)\<rparr>
      in respond (fetch_next_chunk str_to_float src qs3))"

definition refine_query ::
  "(string \<Rightarrow> number option) \<Rightarrow> source \<Rightarrow> QueryState \<Rightarrow> QueryResult outcome" where
  "refine_query str_to_float src qs = respond (fetch_next_chunk str_to_float src qs)"

subsection \<open>Notions used to state the properties\<close>

text \<open>The guard of \<^verbatim>\<open>fetch_next_chunk\<close> lets the call through: the session is not done
  and a non-empty column name is selected.\<close>

definition fetch_performed :: "QueryState \<Rightarrow> bool" where
  "fetch_performed qs = (\<not> is_done qs \<and> \<not> py_not (column_to_query qs))"

text \<open>The request that a fetch from session \<open>qs\<close> sends.\<close>

definition next_query :: "QueryState \<Rightarrow> soda_query" where
  "next_query qs = build_query (the (column_to_query qs)) (current_offset qs)"

text \<open>The fetch goes out and the source answers it with a non-empty page.\<close>

definition page_arrives :: "source \<Rightarrow> QueryState \<Rightarrow> bool" where
  "page_arrives src qs =
     (fetch_performed qs \<and> (case src (next_query qs) of Inl e \<Rightarrow> False | Inr data \<Rightarrow> data \<noteq> []))"

text \<open>A row whose value fails numeric parsing: the field is missing (\<^verbatim>\<open>KeyError\<close>), is
  not numeric (\<^verbatim>\<open>ValueError\<close>) or has the wrong type (\<^verbatim>\<open>TypeError\<close>).\<close>

definition fails_parsing :: "(string \<Rightarrow> number option) \<Rightarrow> string \<Rightarrow> json \<Rightarrow> bool" where
  "fails_parsing str_to_float col record =
     (case record_value str_to_float record col of
        Inl e \<Rightarrow> e = KeyError \<or> e = ValueError \<or> e = TypeError
      | Inr v \<Rightarrow> False)"

text \<open>The values of those rows of a page for which \<^verbatim>\<open>float(record[col])\<close> succeeds, in
  page order.\<close>

definition parsed_values :: "(string \<Rightarrow> number option) \<Rightarrow> string \<Rightarrow> json list \<Rightarrow> number list" where
  "parsed_values str_to_float col data =
     List.map_filter
       (\<lambda>record. case record_value str_to_float record col of
                    Inl e \<Rightarrow> None
                  | Inr v \<Rightarrow> Some v)
       data"

text \<open>The square of a float where \<^verbatim>\<open>x ** 2\<close> does not raise.\<close>

fun square :: "number \<Rightarrow> number" where
  "square (Finite x) = Finite (x ^ 2)"
| "square PosInf = PosInf"
| "square NegInf = PosInf"
| "square NaN = NaN"

text \<open>A row that makes the loop raise under aggregate \<open>agg\<close>: its value is an int beyond
  the range of a double, or, with AVG, a float whose square is.\<close>

definition overflows :: "(string \<Rightarrow> number option) \<Rightarrow> string \<Rightarrow> string option \<Rightarrow> json \<Rightarrow> bool" where
  "overflows str_to_float col agg record =
     (case record_value str_to_float record col of
        Inl e \<Rightarrow> e = OverflowError
      | Inr v \<Rightarrow> agg = Some ''AVG'' \<and> float_pow2 v = Inl OverflowError)"

text \<open>What \<^verbatim>\<open>fetch_next_chunk\<close> does with a non-empty page before it advances the offset:
  the count is raised by the number of rows, then the rows are summed when the aggregate is
  SUM or AVG.\<close>

definition page_loop ::
  "(string \<Rightarrow> number option) \<Rightarrow> json list \<Rightarrow> QueryState \<Rightarrow> py_exception option \<times> QueryState" where
  "page_loop str_to_float data qs =
     (let qs1 = qs\<lparr>running_count := running_count qs + int (length data)\<rparr>
      in if aggregate_function qs1 = Some ''SUM'' \<or> aggregate_function qs1 = Some ''AVG''
         then sum_records str_to_float (the (column_to_query qs)) data qs1
         else (None, qs1))"

text \<open>One \<^verbatim>\<open>/refine_query\<close> call takes the session from \<open>qs\<close> to \<open>qs'\<close>, whatever the
  source answers.\<close>

inductive refine_step :: "QueryState \<Rightarrow> QueryState \<Rightarrow> bool" where
  refine: "refine_step qs (state_after (refine_query str_to_float src qs))"

text \<open>\<^verbatim>\<open>/start_query\<close> as the specification words it: the zero state with the column and the
  aggregate of the request, followed by exactly one refine.\<close>

definition start_spec ::
  "(string \<Rightarrow> number option) \<Rightarrow> source \<Rightarrow> StartQueryRequest \<Rightarrow> QueryState
     \<Rightarrow> QueryResult outcome" where
  "start_spec str_to_float src request qs =
     refine_query str_to_float src
       (init\<lparr>column_to_query := Some (column_name request),
             aggregate_function := Some (request_aggregate_function request)\<rparr>)"

section \<open>Properties\<close>

subsection \<open>The range of a double\<close>

lemma FLOAT_LIMIT_large: "10 ^ 300 < FLOAT_LIMIT"
  by (simp add: FLOAT_LIMIT_def)

lemma FLOAT_LIMIT_pos: "0 < FLOAT_LIMIT"
  using FLOAT_LIMIT_large by (simp add: less_trans [of 0 "10 ^ 300"])




lemma to_float_0: "to_float 0 = Finite 0"
  using FLOAT_LIMIT_pos by (simp add: to_float_def)






subsection \<open>Row parsing and the accumulation loop\<close>

lemma py_getitem_raises: "py_getitem r col = Inl e \<Longrightarrow> e = KeyError \<or> e = TypeError"
  by (cases r) (auto split: option.splits)

lemma py_float_raises:
  "py_float pf v = Inl e \<Longrightarrow> e = ValueError \<or> e = TypeError \<or> e = OverflowError"
  by (cases v) (auto simp add: int_to_float_def split: option.splits if_splits)

lemma record_value_raises:
  "record_value pf r col = Inl e \<Longrightarrow>
   e = KeyError \<or> e = ValueError \<or> e = TypeError \<or> e = OverflowError"
  unfolding record_value_def
  by (auto split: sum.splits dest: py_getitem_raises py_float_raises)

lemma float_pow2_raises: "float_pow2 v = Inl e \<Longrightarrow> e = OverflowError"
  by (cases v) (auto split: if_splits)

lemma float_pow2_square: "float_pow2 v \<noteq> Inl OverflowError \<Longrightarrow> float_pow2 v = Inr (square v)"
  by (cases v) (auto split: if_splits)

lemma add_record_raises:
  "fst (add_record pf col r qs) = Some e \<Longrightarrow>
   e = KeyError \<or> e = ValueError \<or> e = TypeError \<or> e = OverflowError"
  by (auto simp add: add_record_def Let_def split: sum.splits if_splits
      dest: record_value_raises float_pow2_raises)

lemma add_record_fields:
  "running_count (snd (add_record pf col r qs)) = running_count qs"
  "current_offset (snd (add_record pf col r qs)) = current_offset qs"
  "is_done (snd (add_record pf col r qs)) = is_done qs"
  "column_to_query (snd (add_record pf col r qs)) = column_to_query qs"
  "aggregate_function (snd (add_record pf col r qs)) = aggregate_function qs"
  by (simp_all add: add_record_def Let_def split: sum.splits)

lemma sum_records_Cons:
  "sum_records pf col (r # data) qs =
     (if fst (add_record pf col r qs) = Some OverflowError
      then (Some OverflowError, snd (add_record pf col r qs))
      else sum_records pf col data (snd (add_record pf col r qs)))"
proof (cases "add_record pf col r qs")
  case (Pair x qs')
  show ?thesis
  proof (cases x)
    case None
    with Pair show ?thesis by simp
  next
    case (Some e)
    with Pair add_record_raises [of pf col r qs e] show ?thesis by auto
  qed
qed

declare sum_records.simps(2) [simp del]

lemma sum_records_fields:
  "running_count (snd (sum_records pf col data qs)) = running_count qs
   \<and> current_offset (snd (sum_records pf col data qs)) = current_offset qs
   \<and> is_done (snd (sum_records pf col data qs)) = is_done qs
   \<and> column_to_query (snd (sum_records pf col data qs)) = column_to_query qs
   \<and> aggregate_function (snd (sum_records pf col data qs)) = aggregate_function qs"
proof (induction data arbitrary: qs)
  case Nil
  show ?case by simp
next
  case (Cons r data)
  show ?case
    unfolding sum_records_Cons
    using Cons.IH [of "snd (add_record pf col r qs)"]
    by (simp add: add_record_fields)
qed

lemma sum_records_raises:
  "fst (sum_records pf col data qs) = Some e \<Longrightarrow> e = OverflowError"
proof (induction data arbitrary: qs)
  case Nil
  then show ?case by simp
next
  case (Cons r data)
  then show ?case
    unfolding sum_records_Cons by (auto split: if_splits)
qed

lemma add_record_fails_parsing:
  "fails_parsing pf col r \<Longrightarrow>
   snd (add_record pf col r qs) = qs \<and> fst (add_record pf col r qs) \<noteq> Some OverflowError"
  by (auto simp add: fails_parsing_def add_record_def split: sum.splits)

lemma sum_records_skip:
  "sum_records pf col data qs =
   sum_records pf col (filter (\<lambda>r. \<not> fails_parsing pf col r) data) qs"
proof (induction data arbitrary: qs)
  case Nil
  show ?case by simp
next
  case (Cons r data)
  show ?case
  proof (cases "fails_parsing pf col r")
    case True
    from add_record_fails_parsing [OF True, of qs] Cons.IH [of qs] True
    show ?thesis by (simp add: sum_records_Cons)
  next
    case False
    with Cons.IH [of "snd (add_record pf col r qs)"]
    show ?thesis by (simp add: sum_records_Cons)
  qed
qed

lemma parsed_values_Nil: "parsed_values pf col [] = []"
  by (simp add: parsed_values_def)

lemma parsed_values_Cons:
  "parsed_values pf col (r # data) =
     (case record_value pf r col of
        Inl e \<Rightarrow> parsed_values pf col data
      | Inr v \<Rightarrow> v # parsed_values pf col data)"
  by (simp add: parsed_values_def split: sum.splits)

lemma add_record_safe:
  assumes "\<not> overflows pf col (aggregate_function qs) r"
  shows "add_record pf col r qs =
     (case record_value pf r col of
        Inl e \<Rightarrow> (Some e, qs)
      | Inr v \<Rightarrow>
          (None,
           qs\<lparr>running_sum := fadd (running_sum qs) v,
              running_sum_sq :=
                (if aggregate_function qs = Some ''AVG''
                 then fadd (running_sum_sq qs) (square v)
                 else running_sum_sq qs)\<rparr>))"
  using assms
  by (auto simp add: add_record_def overflows_def Let_def split: sum.splits
      dest: float_pow2_raises float_pow2_square)

lemma sum_records_safe:
  assumes "\<forall>r \<in> set data. \<not> overflows pf col (aggregate_function qs) r"
  shows "sum_records pf col data qs =
     (None,
      qs\<lparr>running_sum := foldl fadd (running_sum qs) (parsed_values pf col data),
         running_sum_sq :=
           (if aggregate_function qs = Some ''AVG''
            then foldl fadd (running_sum_sq qs) (map square (parsed_values pf col data))
            else running_sum_sq qs)\<rparr>)"
  using assms
proof (induction data arbitrary: qs)
  case Nil
  show ?case by (simp add: parsed_values_Nil)
next
  case (Cons r data)
  from Cons.prems have safe: "\<not> overflows pf col (aggregate_function qs) r"
    and rest: "\<forall>r \<in> set data. \<not> overflows pf col (aggregate_function qs) r"
    by simp_all
  note a = add_record_safe [OF safe]
  show ?case
  proof (cases "record_value pf r col")
    case (Inl e)
    with safe have ne: "e \<noteq> OverflowError" by (simp add: overflows_def)
    from Inl a have "add_record pf col r qs = (Some e, qs)" by simp
    with ne Cons.IH [OF rest] Inl show ?thesis
      by (simp add: sum_records_Cons parsed_values_Cons)
  next
    case (Inr v)
    let ?qs' = "qs\<lparr>running_sum := fadd (running_sum qs) v,
              running_sum_sq :=
                (if aggregate_function qs = Some ''AVG''
                 then fadd (running_sum_sq qs) (square v)
                 else running_sum_sq qs)\<rparr>"
    from Inr a have ar: "add_record pf col r qs = (None, ?qs')" by simp
    have "\<forall>r \<in> set data. \<not> overflows pf col (aggregate_function ?qs') r"
      using rest by simp
    from Cons.IH [OF this] ar Inr show ?thesis
      by (simp add: sum_records_Cons parsed_values_Cons)
  qed
qed

lemma sum_records_overflow:
  assumes "\<exists>r \<in> set data. overflows pf col (aggregate_function qs) r"
  shows "fst (sum_records pf col data qs) = Some OverflowError"
  using assms
proof (induction data arbitrary: qs)
  case Nil
  then show ?case by simp
next
  case (Cons r data)
  show ?case
  proof (cases "overflows pf col (aggregate_function qs) r")
    case True
    then have "fst (add_record pf col r qs) = Some OverflowError"
      by (auto simp add: overflows_def add_record_def Let_def split: sum.splits)
    then show ?thesis by (simp add: sum_records_Cons)
  next
    case False
    with Cons.prems have "\<exists>x \<in> set data. overflows pf col (aggregate_function qs) x" by simp
    then have "\<exists>x \<in> set data.
        overflows pf col (aggregate_function (snd (add_record pf col r qs))) x"
      by (simp add: add_record_fields)
    from Cons.IH [OF this] show ?thesis by (simp add: sum_records_Cons)
  qed
qed

lemma fails_parsing_not_overflows: "fails_parsing pf col r \<Longrightarrow> \<not> overflows pf col agg r"
  by (auto simp add: fails_parsing_def overflows_def split: sum.splits)

lemma page_loop_fields:
  "running_count (snd (page_loop pf data qs)) = running_count qs + int (length data)"
  "current_offset (snd (page_loop pf data qs)) = current_offset qs"
  "is_done (snd (page_loop pf data qs)) = is_done qs"
  "column_to_query (snd (page_loop pf data qs)) = column_to_query qs"
  "aggregate_function (snd (page_loop pf data qs)) = aggregate_function qs"
  by (simp_all add: page_loop_def Let_def sum_records_fields)

lemma page_loop_raises: "fst (page_loop pf data qs) = Some e \<Longrightarrow> e = OverflowError"
  by (auto simp add: page_loop_def Let_def split: if_splits dest: sum_records_raises)

lemma page_loop_safe:
  assumes "\<forall>r \<in> set data. \<not> overflows pf (the (column_to_query qs)) (aggregate_function qs) r"
    and "aggregate_function qs = Some ''SUM'' \<or> aggregate_function qs = Some ''AVG''"
  shows "page_loop pf data qs =
     (None,
      qs\<lparr>running_count := running_count qs + int (length data),
         running_sum :=
           foldl fadd (running_sum qs) (parsed_values pf (the (column_to_query qs)) data),
         running_sum_sq :=
           (if aggregate_function qs = Some ''AVG''
            then foldl fadd (running_sum_sq qs)
                   (map square (parsed_values pf (the (column_to_query qs)) data))
            else running_sum_sq qs)\<rparr>)"
proof -
  let ?qs1 = "qs\<lparr>running_count := running_count qs + int (length data)\<rparr>"
  have "\<forall>r \<in> set data.
      \<not> overflows pf (the (column_to_query qs)) (aggregate_function ?qs1) r"
    using assms(1) by simp
  from sum_records_safe [OF this] assms(2) show ?thesis
    by (simp add: page_loop_def Let_def)
qed

subsection \<open>The ways a call of \<^verbatim>\<open>fetch_next_chunk\<close> can go\<close>

lemma fetch_noop:
  "\<not> fetch_performed qs \<Longrightarrow>
   fetch_next_chunk pf src qs = \<lparr>returned = Inr False, state_after = qs, requests_sent = []\<rparr>"
  by (auto simp add: fetch_next_chunk_def fetch_performed_def)

lemma fetch_raised:
  "fetch_performed qs \<Longrightarrow> src (next_query qs) = Inl e \<Longrightarrow>
   fetch_next_chunk pf src qs = on_exception e qs [next_query qs]"
  by (simp add: fetch_next_chunk_def fetch_performed_def next_query_def Let_def)

lemma fetch_empty:
  "fetch_performed qs \<Longrightarrow> src (next_query qs) = Inr [] \<Longrightarrow>
   fetch_next_chunk pf src qs =
     \<lparr>returned = Inr False, state_after = qs\<lparr>is_done := True\<rparr>,
      requests_sent = [next_query qs]\<rparr>"
  by (simp add: fetch_next_chunk_def fetch_performed_def next_query_def Let_def)

lemma fetch_page:
  assumes "fetch_performed qs" and "src (next_query qs) = Inr data" and "data \<noteq> []"
  shows "fetch_next_chunk pf src qs =
     (if fst (page_loop pf data qs) = None
      then \<lparr>returned = Inr True,
            state_after =
              (snd (page_loop pf data qs))\<lparr>current_offset := current_offset qs + CHUNK_SIZE\<rparr>,
            requests_sent = [next_query qs]\<rparr>
      else \<lparr>returned = Inl OverflowError, state_after = snd (page_loop pf data qs),
            requests_sent = [next_query qs]\<rparr>)"
proof (cases "page_loop pf data qs")
  case (Pair x qs2)
  have f: "fetch_next_chunk pf src qs =
     (case page_loop pf data qs of
        (Some e, qs2) \<Rightarrow> on_exception e qs2 [next_query qs]
      | (None, qs2) \<Rightarrow>
          \<lparr>returned = Inr True,
           state_after = qs2\<lparr>current_offset := current_offset qs2 + CHUNK_SIZE\<rparr>,
           requests_sent = [next_query qs]\<rparr>)"
    using assms unfolding next_query_def
    by (simp add: fetch_next_chunk_def fetch_performed_def page_loop_def Let_def)
  have o: "current_offset qs2 = current_offset qs"
    using page_loop_fields(2) [of pf data qs] Pair by simp
  show ?thesis
  proof (cases x)
    case None
    with Pair f o show ?thesis by simp
  next
    case (Some e)
    with Pair page_loop_raises [of pf data qs e] have "e = OverflowError" by simp
    with Some Pair f show ?thesis by (simp add: on_exception_def)
  qed
qed

lemma fetch_count:
  assumes "fetch_performed qs" and "src (next_query qs) = Inr data" and "data \<noteq> []"
  shows "running_count (state_after (fetch_next_chunk pf src qs))
     = running_count qs + int (length data)"
  by (simp add: fetch_page [where src = src and data = data, OF assms] page_loop_fields)

lemma fetch_offset:
  "current_offset (state_after (fetch_next_chunk pf src qs)) =
     (if returned (fetch_next_chunk pf src qs) = Inr True
      then current_offset qs + CHUNK_SIZE else current_offset qs)"
proof (cases "fetch_performed qs")
  case False
  then show ?thesis by (simp add: fetch_noop)
next
  case True
  show ?thesis
  proof (cases "src (next_query qs)")
    case (Inl e)
    then show ?thesis by (simp add: fetch_raised [OF True] on_exception_def)
  next
    case (Inr data)
    then show ?thesis
      by (cases "data = []")
        (simp_all add: fetch_empty [OF True] fetch_page [where src = src, OF True]
          page_loop_fields)
  qed
qed

lemma fetch_true_page:
  "returned (fetch_next_chunk pf src qs) = Inr True \<Longrightarrow> page_arrives src qs"
proof (cases "fetch_performed qs")
  case False
  assume "returned (fetch_next_chunk pf src qs) = Inr True"
  with False show ?thesis by (simp add: fetch_noop)
next
  case True
  assume r: "returned (fetch_next_chunk pf src qs) = Inr True"
  show ?thesis
  proof (cases "src (next_query qs)")
    case (Inl e)
    with r show ?thesis
      by (simp add: fetch_raised [OF True] on_exception_def split: if_splits)
  next
    case (Inr data)
    with r True show ?thesis
      by (cases "data = []") (simp_all add: fetch_empty [OF True] page_arrives_def)
  qed
qed

lemma fetch_page_outcome:
  assumes "page_arrives src qs"
  shows "returned (fetch_next_chunk pf src qs) = Inr True
    \<or> returned (fetch_next_chunk pf src qs) = Inl OverflowError"
proof -
  from assms obtain data where p: "fetch_performed qs"
    and d: "src (next_query qs) = Inr data" "data \<noteq> []"
    by (auto simp add: page_arrives_def split: sum.splits)
  show ?thesis by (simp add: fetch_page [where src = src and data = data, OF p d])
qed

lemma fetch_done_preserved:
  "is_done qs \<Longrightarrow> is_done (state_after (fetch_next_chunk pf src qs))"
  by (simp add: fetch_next_chunk_def)

lemma fetch_aggregate_kept:
  "aggregate_function (state_after (fetch_next_chunk pf src qs)) = aggregate_function qs"
proof (cases "fetch_performed qs")
  case False
  then show ?thesis by (simp add: fetch_noop)
next
  case True
  show ?thesis
  proof (cases "src (next_query qs)")
    case (Inl e)
    then show ?thesis by (simp add: fetch_raised [OF True] on_exception_def)
  next
    case (Inr data)
    then show ?thesis
      by (cases "data = []")
        (simp_all add: fetch_empty [OF True] fetch_page [where src = src, OF True]
          page_loop_fields)
  qed
qed

lemma fetch_requests:
  "fetch_performed qs \<Longrightarrow> requests_sent (fetch_next_chunk pf src qs) = [next_query qs]"
proof -
  assume p: "fetch_performed qs"
  show ?thesis
  proof (cases "src (next_query qs)")
    case (Inl e)
    then show ?thesis by (simp add: fetch_raised [OF p] on_exception_def)
  next
    case (Inr data)
    then show ?thesis
      by (cases "data = []")
        (simp_all add: fetch_empty [OF p] fetch_page [where src = src, OF p])
  qed
qed

lemma refine_state: "state_after (refine_query pf src qs) = state_after (fetch_next_chunk pf src qs)"
  by (simp add: refine_query_def respond_def split: sum.splits)

lemma refine_requests:
  "requests_sent (refine_query pf src qs) = requests_sent (fetch_next_chunk pf src qs)"
  by (simp add: refine_query_def respond_def split: sum.splits)

lemma reset_init: "reset qs = init"
  by (simp add: reset_def init_def)

lemma start_state:
  "state_after (start_query pf src request qs) =
     state_after (fetch_next_chunk pf src
       (init\<lparr>column_to_query := Some (column_name request),
             aggregate_function := Some (request_aggregate_function request)\<rparr>))"
  by (simp add: start_query_def respond_def Let_def reset_init split: sum.splits)

subsection \<open>Sequences of refine calls\<close>

lemma refine_steps_offset:
  "refine_step\<^sup>*\<^sup>* qs qs' \<Longrightarrow> current_offset qs \<le> current_offset qs'"
proof (induction rule: rtranclp_induct)
  case base
  show ?case by simp
next
  case (step y z)
  from step.hyps(2) have "current_offset y \<le> current_offset z"
    by (auto elim!: refine_step.cases simp add: refine_state fetch_offset CHUNK_SIZE_def)
  with step.IH show ?case by simp
qed

subsection \<open>Deriving the result\<close>

lemma calculate_statistics_done:
  "calculate_statistics (qs\<lparr>is_done := d\<rparr>) =
     (case calculate_statistics qs of
        Inl e \<Rightarrow> Inl e
      | Inr (avg, ci, n, done) \<Rightarrow> Inr (avg, ci, n, running_count qs \<noteq> 0 \<and> d))"
  by (simp add: calculate_statistics_def Let_def split: sum.splits)

lemma unknown_aggregate_result:
  assumes "aggregate_function qs \<noteq> Some ''SUM''"
    and "aggregate_function qs \<noteq> Some ''COUNT''"
    and "aggregate_function qs \<noteq> Some ''AVG''"
  shows "calculate_statistics qs
     = Inr (Finite 0, Finite 0, Finite 0, running_count qs \<noteq> 0 \<and> is_done qs)"
  using assms by (simp add: calculate_statistics_def)

text \<open>
  Claim C1 says that a session with \<open>count = 0\<close> derives \<open>(0, 0, 0, done)\<close> with the
  session's own done flag. The guard of \<^verbatim>\<open>calculate_statistics\<close> returns the constant
  \<^verbatim>\<open>False\<close> instead. A \<^verbatim>\<open>/start_query\<close> whose first page is empty leaves the session
  with \<open>is_done = True\<close> and \<open>running_count = 0\<close>, and the response it returns says
  \<open>is_done = False\<close>.
\<close>

theorem calculate_statistics_hides_exhaustion:
  "state_after
     (start_query (\<lambda>s. None) (\<lambda>q. Inr [])
        \<lparr>column_name = ''price'', request_aggregate_function = ''AVG''\<rparr> init)
     = init\<lparr>is_done := True, column_to_query := Some ''price'',
            aggregate_function := Some ''AVG''\<rparr>
   \<and> running_count (init\<lparr>is_done := True, column_to_query := Some ''price'',
                           aggregate_function := Some ''AVG''\<rparr>) = 0
   \<and> calculate_statistics
       (init\<lparr>is_done := True, column_to_query := Some ''price'',
              aggregate_function := Some ''AVG''\<rparr>)
     = Inr (Finite 0, Finite 0, Finite 0, False)
   \<and> returned
       (start_query (\<lambda>s. None) (\<lambda>q. Inr [])
          \<lparr>column_name = ''price'', request_aggregate_function = ''AVG''\<rparr> init)
     = Inr \<lparr>average = Finite 0, confidence_interval = Finite 0, percent_complete = Finite 0,
            result_is_done = False\<rparr>"
  by (simp add: start_query_def respond_def derive_result_def fetch_next_chunk_def reset_def
      init_def py_not_def Let_def calculate_statistics_def)

text \<open>
  Claim C8: with \<open>count > 0\<close>, SUM derives \<open>(sum, 0, count, done)\<close> and COUNT derives
  \<open>(count, 0, count, done)\<close>; for SUM and COUNT the confidence half-width is 0 for every
  session, the empty one included, and nothing is raised.
\<close>

theorem sum_and_count_are_exact:
  "(0 < running_count qs \<and> aggregate_function qs = Some ''SUM'' \<longrightarrow>
      calculate_statistics qs =
        Inr (running_sum qs, Finite 0, Finite (real_of_int (running_count qs)), is_done qs))
   \<and> (0 < running_count qs \<and> aggregate_function qs = Some ''COUNT'' \<longrightarrow>
      calculate_statistics qs =
        Inr (Finite (real_of_int (running_count qs)), Finite 0,
             Finite (real_of_int (running_count qs)), is_done qs))
   \<and> (aggregate_function qs = Some ''SUM'' \<or> aggregate_function qs = Some ''COUNT'' \<longrightarrow>
      (case calculate_statistics qs of
         Inl e \<Rightarrow> False
       | Inr stats \<Rightarrow> fst (snd stats) = Finite 0))"
  by (simp add: calculate_statistics_def)

theorem sum_and_count_are_exact_witness:
  "(0::int) < 3
   \<and> calculate_statistics
     \<lparr>current_offset = 10000, running_sum = Finite 60, running_count = 3,
      running_sum_sq = Finite 0, is_done = False, column_to_query = Some ''price'',
      aggregate_function = Some ''SUM''\<rparr>
     = Inr (Finite 60, Finite 0, Finite 3, False)
   \<and> calculate_statistics
     \<lparr>current_offset = 10000, running_sum = Finite 0, running_count = 3,
      running_sum_sq = Finite 0, is_done = True, column_to_query = Some ''price'',
      aggregate_function = Some ''COUNT''\<rparr>
     = Inr (Finite 3, Finite 0, Finite 3, True)"
  using
    sum_and_count_are_exact [of "\<lparr>current_offset = 10000, running_sum = Finite 60,
      running_count = 3, running_sum_sq = Finite 0, is_done = False,
      column_to_query = Some ''price'', aggregate_function = Some ''SUM''\<rparr>"]
    sum_and_count_are_exact [of "\<lparr>current_offset = 10000, running_sum = Finite 0,
      running_count = 3, running_sum_sq = Finite 0, is_done = True,
      column_to_query = Some ''price'', aggregate_function = Some ''COUNT''\<rparr>"]
  by simp











subsection \<open>The fetch step\<close>

text \<open>
  Claim C2: a fetch that succeeds with a non-empty page of \<open>n\<close> rows adds exactly \<open>n\<close>
  to the count, whatever the aggregate and whatever happens in the loop afterwards. A row
  whose value fails numeric parsing (missing field, not numeric, wrong type) is passed
  over: the loop does to any session what it does without those rows. A page made of such
  rows only raises nothing and leaves the sum and the sum of squares as they were. More
  generally, with SUM or AVG and no row that overflows, the fetch returns \<^verbatim>\<open>True\<close>, the
  sum has the parsed values added to it in page order and, with AVG, the sum of squares
  has their squares added to it; with SUM it stays as it was. The only exception the fetch
  of a non-empty page can raise is the \<^verbatim>\<open>OverflowError\<close> of a value out of range, which is
  not a parsing failure in this sense.
\<close>

theorem fetch_counts_every_row:
  assumes "fetch_performed qs" and "src (next_query qs) = Inr data" and "data \<noteq> []"
  shows "running_count (state_after (fetch_next_chunk pf src qs))
        = running_count qs + int (length data)
    \<and> (returned (fetch_next_chunk pf src qs) = Inr True
        \<or> returned (fetch_next_chunk pf src qs) = Inl OverflowError)
    \<and> sum_records pf col data qs'
        = sum_records pf col (filter (\<lambda>r. \<not> fails_parsing pf col r) data) qs'
    \<and> ((aggregate_function qs = Some ''SUM'' \<or> aggregate_function qs = Some ''AVG'')
        \<and> (\<forall>r \<in> set data.
              \<not> overflows pf (the (column_to_query qs)) (aggregate_function qs) r)
        \<longrightarrow> returned (fetch_next_chunk pf src qs) = Inr True
          \<and> running_sum (state_after (fetch_next_chunk pf src qs))
              = foldl fadd (running_sum qs)
                  (parsed_values pf (the (column_to_query qs)) data)
          \<and> running_sum_sq (state_after (fetch_next_chunk pf src qs))
              = (if aggregate_function qs = Some ''AVG''
                 then foldl fadd (running_sum_sq qs)
                        (map square (parsed_values pf (the (column_to_query qs)) data))
                 else running_sum_sq qs))
    \<and> ((\<forall>r \<in> set data. fails_parsing pf (the (column_to_query qs)) r)
        \<longrightarrow> returned (fetch_next_chunk pf src qs) = Inr True
          \<and> running_sum (state_after (fetch_next_chunk pf src qs)) = running_sum qs
          \<and> running_sum_sq (state_after (fetch_next_chunk pf src qs)) = running_sum_sq qs)"
proof -
  note f = fetch_page [where src = src and data = data and pf = pf, OF assms]
  let ?col = "the (column_to_query qs)"
  let ?qs1 = "qs\<lparr>running_count := running_count qs + int (length data)\<rparr>"
  have c1: "running_count (state_after (fetch_next_chunk pf src qs))
        = running_count qs + int (length data)"
    using assms by (rule fetch_count)
  have c2: "returned (fetch_next_chunk pf src qs) = Inr True
        \<or> returned (fetch_next_chunk pf src qs) = Inl OverflowError"
    by (simp add: f)
  have c3: "sum_records pf col data qs'
        = sum_records pf col (filter (\<lambda>r. \<not> fails_parsing pf col r) data) qs'"
    by (rule sum_records_skip)
  have c4: "(aggregate_function qs = Some ''SUM'' \<or> aggregate_function qs = Some ''AVG'')
        \<and> (\<forall>r \<in> set data. \<not> overflows pf ?col (aggregate_function qs) r)
        \<longrightarrow> returned (fetch_next_chunk pf src qs) = Inr True
          \<and> running_sum (state_after (fetch_next_chunk pf src qs))
              = foldl fadd (running_sum qs) (parsed_values pf ?col data)
          \<and> running_sum_sq (state_after (fetch_next_chunk pf src qs))
              = (if aggregate_function qs = Some ''AVG''
                 then foldl fadd (running_sum_sq qs) (map square (parsed_values pf ?col data))
                 else running_sum_sq qs)"
  proof
    assume a: "(aggregate_function qs = Some ''SUM'' \<or> aggregate_function qs = Some ''AVG'')
        \<and> (\<forall>r \<in> set data. \<not> overflows pf ?col (aggregate_function qs) r)"
    then have "page_loop pf data qs =
       (None,
        qs\<lparr>running_count := running_count qs + int (length data),
           running_sum := foldl fadd (running_sum qs) (parsed_values pf ?col data),
           running_sum_sq :=
             (if aggregate_function qs = Some ''AVG''
              then foldl fadd (running_sum_sq qs) (map square (parsed_values pf ?col data))
              else running_sum_sq qs)\<rparr>)"
      by (intro page_loop_safe) simp_all
    then show "returned (fetch_next_chunk pf src qs) = Inr True
          \<and> running_sum (state_after (fetch_next_chunk pf src qs))
              = foldl fadd (running_sum qs) (parsed_values pf ?col data)
          \<and> running_sum_sq (state_after (fetch_next_chunk pf src qs))
              = (if aggregate_function qs = Some ''AVG''
                 then foldl fadd (running_sum_sq qs) (map square (parsed_values pf ?col data))
                 else running_sum_sq qs)"
      by (simp add: f)
  qed
  have c5: "(\<forall>r \<in> set data. fails_parsing pf ?col r)
        \<longrightarrow> returned (fetch_next_chunk pf src qs) = Inr True
          \<and> running_sum (state_after (fetch_next_chunk pf src qs)) = running_sum qs
          \<and> running_sum_sq (state_after (fetch_next_chunk pf src qs)) = running_sum_sq qs"
  proof
    assume a: "\<forall>r \<in> set data. fails_parsing pf ?col r"
    then have e: "filter (\<lambda>r. \<not> fails_parsing pf ?col r) data = []"
      by (simp add: filter_empty_conv)
    have "sum_records pf ?col data ?qs1 = (None, ?qs1)"
      using sum_records_skip [of pf ?col data ?qs1] by (simp add: e)
    then have "page_loop pf data qs = (None, ?qs1)"
      by (simp add: page_loop_def Let_def)
    then show "returned (fetch_next_chunk pf src qs) = Inr True
          \<and> running_sum (state_after (fetch_next_chunk pf src qs)) = running_sum qs
          \<and> running_sum_sq (state_after (fetch_next_chunk pf src qs)) = running_sum_sq qs"
      by (simp add: f)
  qed
  show ?thesis by (intro conjI c1 c2 c3 c4 c5)
qed

text \<open>
  The witness page has five rows for the column \<open>price\<close>: two numbers, a string that
  does not parse, an object without the column and a \<^verbatim>\<open>null\<close>.
\<close>

theorem fetch_counts_every_row_witness:
  "fetch_performed (init\<lparr>column_to_query := Some ''price'', aggregate_function := Some ''AVG''\<rparr>)
   \<and> fails_parsing (\<lambda>s. None) ''price'' (JObject [(''price'', JString ''n/a'')])
   \<and> fails_parsing (\<lambda>s. None) ''price'' (JObject [(''fare'', JInt 9)])
   \<and> fails_parsing (\<lambda>s. None) ''price'' JNull
   \<and> \<not> overflows (\<lambda>s. None) ''price'' (Some ''AVG'') (JObject [(''price'', JInt 2)])
   \<and> parsed_values (\<lambda>s. None) ''price''
        [JObject [(''price'', JInt 2)], JObject [(''price'', JString ''n/a'')],
         JObject [(''fare'', JInt 9)], JNull, JObject [(''price'', JInt 4)]]
     = [Finite 2, Finite 4]
   \<and> returned
        (fetch_next_chunk (\<lambda>s. None)
           (\<lambda>q. Inr [JObject [(''price'', JInt 2)], JObject [(''price'', JString ''n/a'')],
                      JObject [(''fare'', JInt 9)], JNull, JObject [(''price'', JInt 4)]])
           (init\<lparr>column_to_query := Some ''price'', aggregate_function := Some ''AVG''\<rparr>))
      = Inr True
   \<and> running_count (state_after
        (fetch_next_chunk (\<lambda>s. None)
           (\<lambda>q. Inr [JObject [(''price'', JInt 2)], JObject [(''price'', JString ''n/a'')],
                      JObject [(''fare'', JInt 9)], JNull, JObject [(''price'', JInt 4)]])
           (init\<lparr>column_to_query := Some ''price'', aggregate_function := Some ''AVG''\<rparr>)))
      = 5
   \<and> running_sum (state_after
        (fetch_next_chunk (\<lambda>s. None)
           (\<lambda>q. Inr [JObject [(''price'', JInt 2)], JObject [(''price'', JString ''n/a'')],
                      JObject [(''fare'', JInt 9)], JNull, JObject [(''price'', JInt 4)]])
           (init\<lparr>column_to_query := Some ''price'', aggregate_function := Some ''AVG''\<rparr>)))
      = Finite 6
   \<and> running_sum_sq (state_after
        (fetch_next_chunk (\<lambda>s. None)
           (\<lambda>q. Inr [JObject [(''price'', JInt 2)], JObject [(''price'', JString ''n/a'')],
                      JObject [(''fare'', JInt 9)], JNull, JObject [(''price'', JInt 4)]])
           (init\<lparr>column_to_query := Some ''price'', aggregate_function := Some ''AVG''\<rparr>)))
      = Finite 20
   \<and> returned
        (fetch_next_chunk (\<lambda>s. None)
           (\<lambda>q. Inr [JObject [(''price'', JString ''n/a'')], JNull])
           (init\<lparr>column_to_query := Some ''price'', aggregate_function := Some ''AVG''\<rparr>))
      = Inr True
   \<and> running_count (state_after
        (fetch_next_chunk (\<lambda>s. None)
           (\<lambda>q. Inr [JObject [(''price'', JString ''n/a'')], JNull])
           (init\<lparr>column_to_query := Some ''price'', aggregate_function := Some ''AVG''\<rparr>)))
      = 2
   \<and> running_sum (state_after
        (fetch_next_chunk (\<lambda>s. None)
           (\<lambda>q. Inr [JObject [(''price'', JString ''n/a'')], JNull])
           (init\<lparr>column_to_query := Some ''price'', aggregate_function := Some ''AVG''\<rparr>)))
      = Finite 0"
proof -
  let ?qs = "init\<lparr>column_to_query := Some ''price'', aggregate_function := Some ''AVG''\<rparr>"
  let ?data = "[JObject [(''price'', JInt 2)], JObject [(''price'', JString ''n/a'')],
         JObject [(''fare'', JInt 9)], JNull, JObject [(''price'', JInt 4)]]"
  have small: "\<not> FLOAT_LIMIT \<le> 2" "\<not> FLOAT_LIMIT \<le> 4" "\<not> FLOAT_LIMIT \<le> 6"
    "\<not> FLOAT_LIMIT \<le> 16" "\<not> FLOAT_LIMIT \<le> 20" "\<not> 2 \<le> - FLOAT_LIMIT"
    "\<not> 4 \<le> - FLOAT_LIMIT" "\<not> 6 \<le> - FLOAT_LIMIT" "\<not> 20 \<le> - FLOAT_LIMIT"
    using FLOAT_LIMIT_large by simp_all
  have p: "fetch_performed ?qs" by (simp add: fetch_performed_def init_def py_not_def)
  have fp: "fails_parsing (\<lambda>s. None) ''price'' (JObject [(''price'', JString ''n/a'')])"
    "fails_parsing (\<lambda>s. None) ''price'' (JObject [(''fare'', JInt 9)])"
    "fails_parsing (\<lambda>s. None) ''price'' JNull"
    by (simp_all add: fails_parsing_def record_value_def)
  have rv: "record_value (\<lambda>s. None) (JObject [(''price'', JInt 2)]) ''price'' = Inr (Finite 2)"
    "record_value (\<lambda>s. None) (JObject [(''price'', JInt 4)]) ''price'' = Inr (Finite 4)"
    using small by (simp_all add: record_value_def int_to_float_def)
  have o: "\<not> overflows (\<lambda>s. None) ''price'' (Some ''AVG'') (JObject [(''price'', JInt 2)])"
    "\<not> overflows (\<lambda>s. None) ''price'' (Some ''AVG'') (JObject [(''price'', JInt 4)])"
    using small rv by (simp_all add: overflows_def)
  note o' = fp [THEN fails_parsing_not_overflows, of "Some ''AVG''"]
  have ov: "\<forall>r \<in> set ?data. \<not> overflows (\<lambda>s. None) ''price'' (Some ''AVG'') r"
    using o o' by simp
  have v: "parsed_values (\<lambda>s. None) ''price'' ?data = [Finite 2, Finite 4]"
    using fp rv by (simp add: parsed_values_Cons parsed_values_Nil fails_parsing_def
        split: sum.splits)
  from fetch_counts_every_row [where qs = ?qs and src = "\<lambda>q. Inr ?data" and data = ?data
      and pf = "\<lambda>s. None"] p ov v small
  have "returned (fetch_next_chunk (\<lambda>s. None) (\<lambda>q. Inr ?data) ?qs) = Inr True
    \<and> running_count (state_after (fetch_next_chunk (\<lambda>s. None) (\<lambda>q. Inr ?data) ?qs)) = 5
    \<and> running_sum (state_after (fetch_next_chunk (\<lambda>s. None) (\<lambda>q. Inr ?data) ?qs)) = Finite 6
    \<and> running_sum_sq (state_after (fetch_next_chunk (\<lambda>s. None) (\<lambda>q. Inr ?data) ?qs))
        = Finite 20"
    by (simp add: init_def to_float_def)
  moreover
  let ?bad = "[JObject [(''price'', JString ''n/a'')], JNull]"
  from fetch_counts_every_row [where qs = ?qs and src = "\<lambda>q. Inr ?bad" and data = ?bad
      and pf = "\<lambda>s. None"] p fp
  have "returned (fetch_next_chunk (\<lambda>s. None) (\<lambda>q. Inr ?bad) ?qs) = Inr True
    \<and> running_count (state_after (fetch_next_chunk (\<lambda>s. None) (\<lambda>q. Inr ?bad) ?qs)) = 2
    \<and> running_sum (state_after (fetch_next_chunk (\<lambda>s. None) (\<lambda>q. Inr ?bad) ?qs))
        = Finite 0"
    by (simp add: init_def)
  ultimately show ?thesis using p fp o v by simp
qed

text \<open>
  Claim C4 says that after a failed fetch no exception surfaces to the caller. An AVG
  session can hold a sum whose mean squared is out of range: a \<^verbatim>\<open>/start_query\<close> whose
  first page carries the value \<open>10\<^sup>2\<^sup>0\<^sup>0\<close> raises \<^verbatim>\<open>OverflowError\<close> at \<^verbatim>\<open>value ** 2\<close> and
  leaves the count and the sum updated. A refine call on that session whose request fails
  marks the session done and then raises \<^verbatim>\<open>OverflowError\<close> from
  \<^verbatim>\<open>calculate_statistics\<close>.
\<close>

theorem failed_fetch_can_raise:
  "state_after
     (start_query (\<lambda>s. None) (\<lambda>q. Inr [JObject [(''price'', JInt (10 ^ 200))]])
        \<lparr>column_name = ''price'', request_aggregate_function = ''AVG''\<rparr> init)
     = \<lparr>current_offset = 0, running_sum = Finite (10 ^ 200), running_count = 1,
        running_sum_sq = Finite 0, is_done = False, column_to_query = Some ''price'',
        aggregate_function = Some ''AVG''\<rparr>
   \<and> returned
       (refine_query (\<lambda>s. None) (\<lambda>q. Inl RequestException)
          \<lparr>current_offset = 0, running_sum = Finite (10 ^ 200), running_count = 1,
           running_sum_sq = Finite 0, is_done = False, column_to_query = Some ''price'',
           aggregate_function = Some ''AVG''\<rparr>)
     = Inl OverflowError
   \<and> state_after
       (refine_query (\<lambda>s. None) (\<lambda>q. Inl RequestException)
          \<lparr>current_offset = 0, running_sum = Finite (10 ^ 200), running_count = 1,
           running_sum_sq = Finite 0, is_done = False, column_to_query = Some ''price'',
           aggregate_function = Some ''AVG''\<rparr>)
     = \<lparr>current_offset = 0, running_sum = Finite (10 ^ 200), running_count = 1,
        running_sum_sq = Finite 0, is_done = True, column_to_query = Some ''price'',
        aggregate_function = Some ''AVG''\<rparr>"
proof -
  have a: "state_after
     (start_query (\<lambda>s. None) (\<lambda>q. Inr [JObject [(''price'', JInt (10 ^ 200))]])
        \<lparr>column_name = ''price'', request_aggregate_function = ''AVG''\<rparr> init)
     = \<lparr>current_offset = 0, running_sum = Finite (10 ^ 200), running_count = 1,
        running_sum_sq = Finite 0, is_done = False, column_to_query = Some ''price'',
        aggregate_function = Some ''AVG''\<rparr>"
    by (simp add: start_query_def respond_def fetch_next_chunk_def reset_def py_not_def
        Let_def sum_records_Cons add_record_def record_value_def int_to_float_def
        to_float_def FLOAT_LIMIT_def on_exception_def)
  have b: "refine_query (\<lambda>s. None) (\<lambda>q. Inl RequestException)
          \<lparr>current_offset = 0, running_sum = Finite (10 ^ 200), running_count = 1,
           running_sum_sq = Finite 0, is_done = False, column_to_query = Some ''price'',
           aggregate_function = Some ''AVG''\<rparr>
     = \<lparr>returned = Inl OverflowError,
        state_after = \<lparr>current_offset = 0, running_sum = Finite (10 ^ 200), running_count = 1,
          running_sum_sq = Finite 0, is_done = True, column_to_query = Some ''price'',
          aggregate_function = Some ''AVG''\<rparr>,
        requests_sent = [\<lparr>q_select = ''price'', q_where_positive = ''price'',
          q_limit = 10000, q_offset = 0\<rparr>]\<rparr>"
    by (simp add: refine_query_def respond_def derive_result_def fetch_next_chunk_def
        py_not_def Let_def on_exception_def build_query_def CHUNK_SIZE_def
        calculate_statistics_def float_div_int_def int_to_float_def to_float_def
        FLOAT_LIMIT_def)
  from a b show ?thesis by simp
qed

text \<open>
  Claim C4 as amended: when the request of a fetch raises \<^verbatim>\<open>RequestException\<close>, the
  fetch raises nothing, returns \<^verbatim>\<open>False\<close> and sets the done flag; offset, count, sum and
  sum of squares keep their values. The refine call around it returns what deriving the
  statistics of that session gives: where deriving them from the session before the
  failure raises, the same exception; otherwise a response with the same estimate,
  half-width and record count as before the failure.
\<close>

theorem failed_fetch_marks_done:
  assumes "fetch_performed qs" and "src (next_query qs) = Inl RequestException"
  shows "fetch_next_chunk pf src qs =
      \<lparr>returned = Inr False, state_after = qs\<lparr>is_done := True\<rparr>,
       requests_sent = [next_query qs]\<rparr>
    \<and> is_done (state_after (fetch_next_chunk pf src qs))
    \<and> current_offset (state_after (fetch_next_chunk pf src qs)) = current_offset qs
    \<and> running_count (state_after (fetch_next_chunk pf src qs)) = running_count qs
    \<and> running_sum (state_after (fetch_next_chunk pf src qs)) = running_sum qs
    \<and> running_sum_sq (state_after (fetch_next_chunk pf src qs)) = running_sum_sq qs
    \<and> state_after (refine_query pf src qs) = qs\<lparr>is_done := True\<rparr>
    \<and> returned (refine_query pf src qs) = derive_result (qs\<lparr>is_done := True\<rparr>)
    \<and> (case calculate_statistics qs of
          Inl e \<Rightarrow> returned (refine_query pf src qs) = Inl e
        | Inr stats \<Rightarrow>
            (case returned (refine_query pf src qs) of
               Inl e \<Rightarrow> False
             | Inr res \<Rightarrow>
                 average res = fst stats
                 \<and> confidence_interval res = fst (snd stats)
                 \<and> percent_complete res = fst (snd (snd stats))))"
proof -
  have f: "fetch_next_chunk pf src qs =
      \<lparr>returned = Inr False, state_after = qs\<lparr>is_done := True\<rparr>,
       requests_sent = [next_query qs]\<rparr>"
    using fetch_raised [where qs = qs and src = src and e = RequestException, OF assms]
    by (simp add: on_exception_def)
  have r: "returned (refine_query pf src qs) = derive_result (qs\<lparr>is_done := True\<rparr>)"
    by (simp add: refine_query_def respond_def f)
  have d: "case calculate_statistics qs of
          Inl e \<Rightarrow> returned (refine_query pf src qs) = Inl e
        | Inr stats \<Rightarrow>
            (case returned (refine_query pf src qs) of
               Inl e \<Rightarrow> False
             | Inr res \<Rightarrow>
                 average res = fst stats
                 \<and> confidence_interval res = fst (snd stats)
                 \<and> percent_complete res = fst (snd (snd stats)))"
    unfolding r
    by (simp add: derive_result_def calculate_statistics_done split: sum.splits prod.splits)
  show ?thesis
    using d by (simp add: f r refine_state)
qed

theorem failed_fetch_marks_done_witness:
  "fetch_performed
     \<lparr>current_offset = 10000, running_sum = Finite 60, running_count = 3,
      running_sum_sq = Finite 0, is_done = False, column_to_query = Some ''price'',
      aggregate_function = Some ''SUM''\<rparr>
   \<and> refine_query (\<lambda>s. None) (\<lambda>q. Inl RequestException)
     \<lparr>current_offset = 10000, running_sum = Finite 60, running_count = 3,
      running_sum_sq = Finite 0, is_done = False, column_to_query = Some ''price'',
      aggregate_function = Some ''SUM''\<rparr>
     = \<lparr>returned = Inr \<lparr>average = Finite 60, confidence_interval = Finite 0,
                         percent_complete = Finite 3, result_is_done = True\<rparr>,
        state_after =
          \<lparr>current_offset = 10000, running_sum = Finite 60, running_count = 3,
           running_sum_sq = Finite 0, is_done = True, column_to_query = Some ''price'',
           aggregate_function = Some ''SUM''\<rparr>,
        requests_sent =
          [\<lparr>q_select = ''price'', q_where_positive = ''price'', q_limit = 10000,
            q_offset = 10000\<rparr>]\<rparr>"
proof -
  let ?qs = "\<lparr>current_offset = 10000, running_sum = Finite 60, running_count = 3,
      running_sum_sq = Finite 0, is_done = False, column_to_query = Some ''price'',
      aggregate_function = Some ''SUM''\<rparr>"
  have p: "fetch_performed ?qs" by (simp add: fetch_performed_def py_not_def)
  from failed_fetch_marks_done [where qs = ?qs and src = "\<lambda>q. Inl RequestException"
      and pf = "\<lambda>s. None"] p
  have "fetch_next_chunk (\<lambda>s. None) (\<lambda>q. Inl RequestException) ?qs =
      \<lparr>returned = Inr False, state_after = ?qs\<lparr>is_done := True\<rparr>,
       requests_sent = [next_query ?qs]\<rparr>"
    by simp
  then show ?thesis using p
    by (simp add: refine_query_def respond_def derive_result_def calculate_statistics_def
        next_query_def build_query_def CHUNK_SIZE_def)
qed

text \<open>
  Claim C6: a fetch never lowers the offset. The offset changes only when the request
  goes out, a non-empty page comes back and the fetch returns \<^verbatim>\<open>True\<close>, and then it grows
  by exactly 10000, whatever the number of rows on the page; every fetch that returns
  \<^verbatim>\<open>True\<close> advances it so. A non-empty page makes the fetch return \<^verbatim>\<open>True\<close> unless a
  value overflows. A refine call leaves the session its fetch leaves, so the offset is
  non-decreasing along every sequence of refine calls; a start call leaves the session that
  one fetch makes of the fresh session, at offset 10000 when that fetch returns \<^verbatim>\<open>True\<close>
  and at 0 otherwise.
\<close>

theorem offset_advances_by_page_size:
  "current_offset qs \<le> current_offset (state_after (fetch_next_chunk pf src qs))
   \<and> (current_offset (state_after (fetch_next_chunk pf src qs)) \<noteq> current_offset qs
        \<longrightarrow> page_arrives src qs \<and> returned (fetch_next_chunk pf src qs) = Inr True
          \<and> current_offset (state_after (fetch_next_chunk pf src qs))
              = current_offset qs + 10000)
   \<and> (returned (fetch_next_chunk pf src qs) = Inr True
        \<longrightarrow> current_offset (state_after (fetch_next_chunk pf src qs))
              = current_offset qs + 10000)
   \<and> (page_arrives src qs
        \<longrightarrow> returned (fetch_next_chunk pf src qs) = Inr True
          \<or> returned (fetch_next_chunk pf src qs) = Inl OverflowError)
   \<and> state_after (refine_query pf src qs) = state_after (fetch_next_chunk pf src qs)
   \<and> (refine_step\<^sup>*\<^sup>* qs qs' \<longrightarrow> current_offset qs \<le> current_offset qs')
   \<and> current_offset (state_after (start_query pf src request qs))
       = (if returned (fetch_next_chunk pf src
               (init\<lparr>column_to_query := Some (column_name request),
                     aggregate_function := Some (request_aggregate_function request)\<rparr>))
             = Inr True
          then 10000 else 0)"
proof -
  have t: "returned (fetch_next_chunk pf src qs) = Inr True \<longrightarrow> page_arrives src qs"
    by (simp add: fetch_true_page)
  have o: "page_arrives src qs
        \<longrightarrow> returned (fetch_next_chunk pf src qs) = Inr True
          \<or> returned (fetch_next_chunk pf src qs) = Inl OverflowError"
    by (simp add: fetch_page_outcome)
  have s: "current_offset (state_after (start_query pf src request qs))
       = (if returned (fetch_next_chunk pf src
               (init\<lparr>column_to_query := Some (column_name request),
                     aggregate_function := Some (request_aggregate_function request)\<rparr>))
             = Inr True
          then 10000 else 0)"
    by (simp add: start_state fetch_offset CHUNK_SIZE_def init_def)
  show ?thesis
    using t o s by (simp add: fetch_offset refine_state refine_steps_offset CHUNK_SIZE_def)
qed

theorem offset_advances_by_page_size_witness:
  "page_arrives (\<lambda>q. Inr [JNull, JNull])
     (init\<lparr>column_to_query := Some ''price'', aggregate_function := Some ''COUNT''\<rparr>)
   \<and> refine_step\<^sup>*\<^sup>*
       (init\<lparr>column_to_query := Some ''price'', aggregate_function := Some ''COUNT''\<rparr>)
       (state_after (refine_query (\<lambda>s. None) (\<lambda>q. Inr [JNull, JNull])
          (init\<lparr>column_to_query := Some ''price'', aggregate_function := Some ''COUNT''\<rparr>)))
   \<and> returned
       (fetch_next_chunk (\<lambda>s. None) (\<lambda>q. Inr [JNull, JNull])
          (init\<lparr>column_to_query := Some ''price'', aggregate_function := Some ''COUNT''\<rparr>))
     = Inr True
   \<and> current_offset
       (init\<lparr>column_to_query := Some ''price'', aggregate_function := Some ''COUNT''\<rparr>) = 0
   \<and> current_offset
       (state_after (fetch_next_chunk (\<lambda>s. None) (\<lambda>q. Inr [JNull, JNull])
          (init\<lparr>column_to_query := Some ''price'', aggregate_function := Some ''COUNT''\<rparr>)))
     = 10000
   \<and> current_offset
       (state_after (refine_query (\<lambda>s. None) (\<lambda>q. Inr [JNull, JNull])
          (init\<lparr>column_to_query := Some ''price'', aggregate_function := Some ''COUNT''\<rparr>)))
     = 10000"
proof -
  let ?qs = "init\<lparr>column_to_query := Some ''price'', aggregate_function := Some ''COUNT''\<rparr>"
  let ?src = "\<lambda>q::soda_query. (Inr [JNull, JNull] :: py_exception + json list)"
  have a: "page_arrives ?src ?qs"
    by (simp add: page_arrives_def fetch_performed_def py_not_def init_def)
  have s: "refine_step\<^sup>*\<^sup>* ?qs (state_after (refine_query (\<lambda>s. None) ?src ?qs))"
    by (rule r_into_rtranclp) (rule refine_step.refine)
  have z: "current_offset ?qs = 0" by (simp add: init_def)
  have r: "returned (fetch_next_chunk (\<lambda>s. None) ?src ?qs) = Inr True"
    by (simp add: fetch_next_chunk_def init_def py_not_def Let_def)
  note t = offset_advances_by_page_size [where src = ?src and pf = "\<lambda>s. None"
      and qs' = "state_after (refine_query (\<lambda>s. None) ?src ?qs)"
      and request = "\<lparr>column_name = ''price'', request_aggregate_function = ''COUNT''\<rparr>"
      and qs = ?qs]
  note c3 = t [THEN conjunct2, THEN conjunct2, THEN conjunct1]
  note c5 = t [THEN conjunct2, THEN conjunct2, THEN conjunct2, THEN conjunct2, THEN conjunct1]
  from c3 r z
  have f: "current_offset (state_after (fetch_next_chunk (\<lambda>s. None) ?src ?qs)) = 10000"
    by simp
  from c5 f
  have g: "current_offset (state_after (refine_query (\<lambda>s. None) ?src ?qs)) = 10000"
    by simp
  show ?thesis by (intro conjI a s r z f g)
qed

subsection \<open>The endpoints\<close>

text \<open>
  Claim C5: when the session is done, or no column was ever selected, a refine call sends
  no request, leaves the whole session and the derived result as they were and returns
  that result; a further refine call, against any source, does the same again.
\<close>

theorem refine_without_active_query_is_noop:
  assumes "is_done qs \<or> column_to_query qs = None"
  shows "requests_sent (refine_query pf src qs) = []
    \<and> state_after (refine_query pf src qs) = qs
    \<and> calculate_statistics (state_after (refine_query pf src qs)) = calculate_statistics qs
    \<and> returned (refine_query pf src qs) = derive_result qs
    \<and> refine_query pf' src' (state_after (refine_query pf src qs)) = refine_query pf src qs"
proof -
  from assms have n: "\<not> fetch_performed qs"
    by (auto simp add: fetch_performed_def py_not_def)
  have r: "refine_query g s qs =
      \<lparr>returned = derive_result qs, state_after = qs, requests_sent = []\<rparr>" for g s
    by (simp add: refine_query_def respond_def fetch_noop [OF n])
  show ?thesis by (simp add: r)
qed

theorem refine_without_active_query_is_noop_witness:
  "(is_done (init\<lparr>is_done := True, column_to_query := Some ''price'',
                    aggregate_function := Some ''COUNT''\<rparr>)
      \<or> column_to_query (init\<lparr>is_done := True, column_to_query := Some ''price'',
                    aggregate_function := Some ''COUNT''\<rparr>) = None)
   \<and> requests_sent
       (refine_query (\<lambda>s. None) (\<lambda>q. Inr [JNull])
          (init\<lparr>is_done := True, column_to_query := Some ''price'',
                 aggregate_function := Some ''COUNT''\<rparr>)) = []
   \<and> state_after
       (refine_query (\<lambda>s. None) (\<lambda>q. Inr [JNull])
          (init\<lparr>is_done := True, column_to_query := Some ''price'',
                 aggregate_function := Some ''COUNT''\<rparr>))
     = init\<lparr>is_done := True, column_to_query := Some ''price'',
                 aggregate_function := Some ''COUNT''\<rparr>"
  using refine_without_active_query_is_noop [where
      qs = "init\<lparr>is_done := True, column_to_query := Some ''price'',
                 aggregate_function := Some ''COUNT''\<rparr>"
      and pf = "\<lambda>s. None" and src = "\<lambda>q. Inr [JNull]"]
  by simp

text \<open>
  Claim C7: \<^verbatim>\<open>/start_query\<close> is the zero state with the column and the aggregate of the
  request, followed by exactly one refine: same response, same session, same requests.
\<close>

theorem start_is_reset_then_refine:
  "start_query pf src request qs = start_spec pf src request qs"
proof -
  have "reset qs = init" by (simp add: reset_def init_def)
  then show ?thesis by (simp add: start_query_def start_spec_def refine_query_def Let_def)
qed

text \<open>
  Claim C9: along every sequence of refine calls, a done flag that is set stays set.
\<close>

theorem done_is_monotonic:
  "refine_step\<^sup>*\<^sup>* qs qs' \<Longrightarrow> is_done qs \<Longrightarrow> is_done qs'"
proof (induction rule: rtranclp_induct)
  case base
  then show ?case by simp
next
  case (step y z)
  from step.IH step.prems have "is_done y" by simp
  with step.hyps(2) show ?case
    by (auto elim!: refine_step.cases simp add: refine_state fetch_done_preserved)
qed

theorem done_is_monotonic_witness:
  "refine_step\<^sup>*\<^sup>*
     (init\<lparr>is_done := True, column_to_query := Some ''price'',
           aggregate_function := Some ''SUM''\<rparr>)
     (state_after (refine_query (\<lambda>s. None) (\<lambda>q. Inr [JNull])
        (init\<lparr>is_done := True, column_to_query := Some ''price'',
              aggregate_function := Some ''SUM''\<rparr>)))
   \<and> is_done (init\<lparr>is_done := True, column_to_query := Some ''price'',
                    aggregate_function := Some ''SUM''\<rparr>)
   \<and> is_done
       (state_after (refine_query (\<lambda>s. None) (\<lambda>q. Inr [JNull])
          (init\<lparr>is_done := True, column_to_query := Some ''price'',
                aggregate_function := Some ''SUM''\<rparr>)))"
proof -
  let ?qs = "init\<lparr>is_done := True, column_to_query := Some ''price'',
                  aggregate_function := Some ''SUM''\<rparr>"
  have s: "refine_step\<^sup>*\<^sup>* ?qs (state_after (refine_query (\<lambda>s. None) (\<lambda>q. Inr [JNull]) ?qs))"
    by (rule r_into_rtranclp) (rule refine_step.refine)
  have d: "is_done ?qs" by simp
  from done_is_monotonic [OF s d] s d show ?thesis by simp
qed

text \<open>
  With a column selected, the session not done and an aggregate that is none of SUM, COUNT
  and AVG, a refine call still sends its request, and whatever comes back the estimate, the
  half-width and the record count derived afterwards are 0; the done component is the
  session's flag once the count is not 0. When a non-empty page comes back the count grows
  by its length and the offset by 10000, and the session stays ready for the next fetch.
\<close>

lemma unknown_aggregate_consumes_pages:
  assumes "fetch_performed qs"
    and "aggregate_function qs \<noteq> Some ''SUM''"
    and "aggregate_function qs \<noteq> Some ''COUNT''"
    and "aggregate_function qs \<noteq> Some ''AVG''"
  shows "requests_sent (refine_query pf src qs) = [next_query qs]
    \<and> calculate_statistics (state_after (refine_query pf src qs))
        = Inr (Finite 0, Finite 0, Finite 0,
               running_count (state_after (refine_query pf src qs)) \<noteq> 0
               \<and> is_done (state_after (refine_query pf src qs)))
    \<and> (\<forall>data. src (next_query qs) = Inr data \<and> data \<noteq> [] \<longrightarrow>
          state_after (refine_query pf src qs)
            = qs\<lparr>running_count := running_count qs + int (length data),
                 current_offset := current_offset qs + 10000\<rparr>
          \<and> running_count qs < running_count (state_after (refine_query pf src qs))
          \<and> fetch_performed (state_after (refine_query pf src qs)))"
proof (intro conjI allI impI)
  show "requests_sent (refine_query pf src qs) = [next_query qs]"
    by (simp add: refine_requests fetch_requests [OF assms(1)])
  from assms(2-4)
  show "calculate_statistics (state_after (refine_query pf src qs))
        = Inr (Finite 0, Finite 0, Finite 0,
               running_count (state_after (refine_query pf src qs)) \<noteq> 0
               \<and> is_done (state_after (refine_query pf src qs)))"
    by (intro unknown_aggregate_result) (simp_all add: refine_state fetch_aggregate_kept)
next
  fix data
  assume d: "src (next_query qs) = Inr data \<and> data \<noteq> []"
  then have d1: "src (next_query qs) = Inr data" and d2: "data \<noteq> []" by simp_all
  have l: "page_loop pf data qs
      = (None, qs\<lparr>running_count := running_count qs + int (length data)\<rparr>)"
    using assms(2,4) by (simp add: page_loop_def Let_def)
  note f = fetch_page [where qs = qs and src = src and data = data and pf = pf,
      OF assms(1) d1 d2]
  show "state_after (refine_query pf src qs)
            = qs\<lparr>running_count := running_count qs + int (length data),
                 current_offset := current_offset qs + 10000\<rparr>"
    by (simp add: refine_state f l CHUNK_SIZE_def)
  from d2 show "running_count qs < running_count (state_after (refine_query pf src qs))"
    by (simp add: refine_state f l)
  from assms(1) show "fetch_performed (state_after (refine_query pf src qs))"
    by (simp add: refine_state f l fetch_performed_def)
qed

text \<open>
  Claim C10 says that with such an aggregate the derived result stays \<open>(0, 0, 0, done)\<close>
  with the session's done flag. Once a page has been counted it does: the default branch
  returns \<open>is_done\<close>. After an empty or failed first page it does not: the session is done,
  the count is still 0, and the guard of \<^verbatim>\<open>calculate_statistics\<close> answers \<^verbatim>\<open>False\<close>.
\<close>

theorem unknown_aggregate_hides_exhaustion:
  "start_query (\<lambda>s. None) (\<lambda>q. Inr [])
     \<lparr>column_name = ''price'', request_aggregate_function = ''avg''\<rparr> init
   = \<lparr>returned = Inr \<lparr>average = Finite 0, confidence_interval = Finite 0,
                       percent_complete = Finite 0, result_is_done = False\<rparr>,
      state_after = init\<lparr>is_done := True, column_to_query := Some ''price'',
                         aggregate_function := Some ''avg''\<rparr>,
      requests_sent = [\<lparr>q_select = ''price'', q_where_positive = ''price'',
                        q_limit = 10000, q_offset = 0\<rparr>]\<rparr>
   \<and> refine_query (\<lambda>s. None) (\<lambda>q. Inl RequestException)
       (init\<lparr>column_to_query := Some ''price'', aggregate_function := Some ''avg''\<rparr>)
   = \<lparr>returned = Inr \<lparr>average = Finite 0, confidence_interval = Finite 0,
                       percent_complete = Finite 0, result_is_done = False\<rparr>,
      state_after = init\<lparr>is_done := True, column_to_query := Some ''price'',
                         aggregate_function := Some ''avg''\<rparr>,
      requests_sent = [\<lparr>q_select = ''price'', q_where_positive = ''price'',
                        q_limit = 10000, q_offset = 0\<rparr>]\<rparr>
   \<and> calculate_statistics
       \<lparr>current_offset = 10000, running_sum = Finite 0, running_count = 2,
        running_sum_sq = Finite 0, is_done = True, column_to_query = Some ''price'',
        aggregate_function = Some ''avg''\<rparr>
     = Inr (Finite 0, Finite 0, Finite 0, True)"
  by (simp add: start_query_def refine_query_def respond_def derive_result_def
      fetch_next_chunk_def reset_def init_def py_not_def Let_def calculate_statistics_def
      on_exception_def build_query_def CHUNK_SIZE_def)

end
